theory Spec2Isabelle
  imports Complex_Main "HOL-Library.Log_Nat"
begin

section \<open>The Sky Orchard game engine (src/game.js)\<close>

text \<open>
  The engine is the class \<open>SkyOrchardGame\<close>. It is single threaded: every method and every
  timer callback runs to completion, so a method is a function from the state before to the
  state after. The state below holds the fields of the object the handlers read or write,
  the orb elements it created, the pending timers of \<open>window\<close>, and the requests it sent to
  the haptics adapter. What the handlers only write for display is left out: the text of
  the score and timer elements and of the final score, the position of an orb, the
  buttons of the host, and \<open>event.preventDefault()\<close>.

  Numbers: every counter of the engine (\<open>score\<close>, \<open>timeLeft\<close>, \<open>orbId\<close>) is an integer that
  moves by at most 5 per event, far inside the range where JavaScript numbers are exact;
  they are \<open>int\<close> and \<open>nat\<close> here. Delays and the values of \<open>Math.random()\<close> are \<open>real\<close>.
  The weights of the orb types and their running sum are the doubles of the source, as
  the reals they denote, added with the rounding of double addition; the arithmetic of
  the delays is taken over the reals, without rounding. Each value drawn from
  \<open>Math.random()\<close> is an argument of the event that draws it.
\<close>

subsection \<open>Constants\<close>

definition GAME_DURATION :: int where
  "GAME_DURATION = 60"

definition ORB_LIFETIME :: real where
  "ORB_LIFETIME = 2200"

definition HINT_TIMEOUT :: real where
  "HINT_TIMEOUT = 2500"

record spawn_cfg =
  threshold :: int
  interval :: int

definition SPAWN_CONFIG :: "spawn_cfg list" where
  "SPAWN_CONFIG =
    [\<lparr>threshold = 0, interval = 1200\<rparr>,
     \<lparr>threshold = 20, interval = 900\<rparr>,
     \<lparr>threshold = 40, interval = 750\<rparr>,
     \<lparr>threshold = 55, interval = 600\<rparr>]"

text \<open>
  Doubles. A JavaScript number is a binary64 value; a finite one is the real it denotes.
  \<open>roundDouble\<close> takes a real to the nearest double, ties to the even significand: the
  value of a numeric literal and of a sum. \<open>binade x\<close> is the exponent \<open>e\<close> with
  \<open>2^e \<le> x < 2^(e+1)\<close> for positive \<open>x\<close>; below \<open>2^-1022\<close> the spacing stays that of the
  subnormals. Overflow to infinity (at \<open>2^1024\<close>) is not modelled: the sums below stay under 2.
\<close>

definition pow2 :: "int \<Rightarrow> real" where
  "pow2 n = (if 0 \<le> n then 2 ^ nat n else 1 / 2 ^ nat (- n))"

definition binade :: "real \<Rightarrow> int" where
  "binade x = (if 1 \<le> x then bitlen \<lfloor>x\<rfloor> - 1 else - bitlen (\<lceil>1 / x\<rceil> - 1))"

definition roundHalfEven :: "real \<Rightarrow> int" where
  "roundHalfEven y =
    (let f = \<lfloor>y\<rfloor>; r = y - of_int f
     in if r < 1 / 2 then f else if 1 / 2 < r then f + 1 else if even f then f else f + 1)"

definition roundPos :: "real \<Rightarrow> real" where
  "roundPos x =
    (let u = pow2 (max (binade x) (- 1022) - 52)
     in of_int (roundHalfEven (x / u)) * u)"

definition roundDouble :: "real \<Rightarrow> real" where
  "roundDouble x = (if x = 0 then 0 else if x < 0 then - roundPos (- x) else roundPos x)"

text \<open>\<open>x + y\<close> on doubles.\<close>

definition dadd :: "real \<Rightarrow> real \<Rightarrow> real" where
  "dadd x y = roundDouble (x + y)"

text \<open>
  A catalog entry. The field \<open>score\<close> of the source is \<open>tscore\<close> here (the engine has a
  field \<open>score\<close> too). \<open>extraTime\<close> is absent on two of the three entries. The weights
  are the doubles the literals \<open>0.7\<close>, \<open>0.2\<close> and \<open>0.1\<close> denote.
\<close>

record orb_type =
  name :: string
  weight :: real
  tscore :: int
  extraTime :: "int option"

definition ORB_TYPES :: "orb_type list" where
  "ORB_TYPES =
    [\<lparr>name = ''common'', weight = roundDouble (7 / 10), tscore = 1, extraTime = None\<rparr>,
     \<lparr>name = ''rare'', weight = roundDouble (2 / 10), tscore = 3, extraTime = None\<rparr>,
     \<lparr>name = ''bonus'', weight = roundDouble (1 / 10), tscore = 5, extraTime = Some 2\<rparr>]"

subsection \<open>State\<close>

text \<open>
  An orb element: \<open>dataset.id\<close>, \<open>dataset.type\<close>, \<open>dataset.captured === 'true'\<close>,
  \<open>isConnected\<close> (the element is in the play area) and the class \<open>collected\<close>. Position and
  \<open>dataset.expiresAt\<close> are written once and never read by the engine; they are left out.
\<close>

record orb =
  oid :: nat
  otype :: string
  captured :: bool
  isConnected :: bool
  collected :: bool

text \<open>
  A pending timer of \<open>window\<close>. The kind is the callback: the spawn loop, the tick of
  \<open>setInterval\<close>, the expiry of an orb, the removal of a collected orb, the end of the
  hint. Orbs are referred to by their position in the list of all elements created, as
  the closures of the source hold the element itself.
\<close>

datatype timer_kind = SpawnLoopT | TickT | ExpireT nat | RemoveCollectedT nat | HintT

record timer =
  handle :: nat
  kind :: timer_kind
  delay :: real

datatype haptic = Impact string | Notification string

record game =
  score :: int
  timeLeft :: int
  spawnTimeout :: "nat option"
  timerInterval :: "nat option"
  orbId :: nat
  isRunning :: bool
  hintTimeoutId :: "nat option"
  overlayHidden :: bool
  hintVisible :: bool
  orbs :: "orb list"
  timers :: "timer list"
  nextHandle :: nat
  feedback :: "haptic list"

text \<open>The three values \<open>spawnOrb\<close> and \<open>spawnLoop\<close> draw from \<open>Math.random()\<close>.\<close>

record draws =
  roll :: real
  life :: real
  jitter :: real

text \<open>The state the constructor leaves: no orb, no timer, not running.\<close>

definition init :: game where
  "init = \<lparr>score = 0, timeLeft = GAME_DURATION, spawnTimeout = None, timerInterval = None,
    orbId = 0, isRunning = False, hintTimeoutId = None, overlayHidden = False,
    hintVisible = False, orbs = [], timers = [], nextHandle = 1, feedback = []\<rparr>"

subsection \<open>Timers of the window\<close>

text \<open>
  \<open>setTimeout\<close> and \<open>setInterval\<close> return a fresh handle; \<open>clearTimeout\<close> and
  \<open>clearInterval\<close> drop the timer with that handle and do nothing on \<open>null\<close>.
\<close>

definition setTimer :: "timer_kind \<Rightarrow> real \<Rightarrow> game \<Rightarrow> nat \<times> game" where
  "setTimer k ms s =
    (nextHandle s,
     s\<lparr>timers := timers s @ [\<lparr>handle = nextHandle s, kind = k, delay = ms\<rparr>],
       nextHandle := Suc (nextHandle s)\<rparr>)"

definition clearTimer :: "nat option \<Rightarrow> game \<Rightarrow> game" where
  "clearTimer ho s =
    (case ho of
       None \<Rightarrow> s
     | Some h \<Rightarrow> s\<lparr>timers := filter (\<lambda>t. handle t \<noteq> h) (timers s)\<rparr>)"

definition orbAt :: "game \<Rightarrow> nat \<Rightarrow> orb option" where
  "orbAt s r = (if r < length (orbs s) then Some (orbs s ! r) else None)"

subsection \<open>Spawning\<close>

text \<open>
  \<open>pickOrbType\<close>: the \<open>for\<close> loop over the catalog with the running sum
  (\<open>cumulative += type.weight\<close>, a double addition), then the fallback \<open>ORB_TYPES[0]\<close>.
\<close>

fun pickLoop :: "real \<Rightarrow> real \<Rightarrow> orb_type list \<Rightarrow> orb_type option" where
  "pickLoop rl cumulative [] = None"
| "pickLoop rl cumulative (t # ts) =
    (if rl \<le> dadd cumulative (weight t) then Some t
     else pickLoop rl (dadd cumulative (weight t)) ts)"

definition pickOrbType :: "real \<Rightarrow> orb_type" where
  "pickOrbType rl =
    (case pickLoop rl 0 ORB_TYPES of Some t \<Rightarrow> t | None \<Rightarrow> ORB_TYPES ! 0)"

definition spawnOrb :: "game \<Rightarrow> draws \<Rightarrow> game" where
  "spawnOrb s d =
    (let s1 = s\<lparr>orbId := Suc (orbId s)\<rparr>;
         ty = pickOrbType (roll d);
         el = \<lparr>oid = orbId s1, otype = name ty, captured = False, isConnected = True,
               collected = False\<rparr>;
         r = length (orbs s1);
         s2 = s1\<lparr>orbs := orbs s1 @ [el]\<rparr>;
         lifetime = ORB_LIFETIME + life d * 600
     in snd (setTimer (ExpireT r) lifetime s2))"

text \<open>The \<open>reduce\<close> over \<open>SPAWN_CONFIG\<close> and the delay of the next spawn.\<close>

definition activeConfig :: "int \<Rightarrow> spawn_cfg" where
  "activeConfig sc =
    foldl (\<lambda>acc cfg. if sc \<ge> threshold cfg then cfg else acc) (SPAWN_CONFIG ! 0) SPAWN_CONFIG"

definition spawnDelay :: "int \<Rightarrow> real \<Rightarrow> real" where
  "spawnDelay sc rj =
    (let current = activeConfig sc;
         jit = rj * 220 - 110
     in max 320 (real_of_int (interval current) + jit))"

definition spawnLoop :: "game \<Rightarrow> draws \<Rightarrow> game" where
  "spawnLoop s d =
    (if \<not> isRunning s then s
     else
       let s1 = spawnOrb s d;
           (h, s2) = setTimer SpawnLoopT (spawnDelay (score s1) (jitter d)) s1
       in s2\<lparr>spawnTimeout := Some h\<rparr>)"

subsection \<open>Tap, collection, expiry\<close>

definition haptics :: "haptic \<Rightarrow> game \<Rightarrow> game" where
  "haptics x s = s\<lparr>feedback := feedback s @ [x]\<rparr>"

definition incrementScore :: "int \<Rightarrow> game \<Rightarrow> game" where
  "incrementScore amount s = s\<lparr>score := score s + amount\<rparr>"

definition collectOrb :: "game \<Rightarrow> nat \<Rightarrow> orb_type \<Rightarrow> game" where
  "collectOrb s r ty =
    (let s1 = haptics (Impact (if name ty = ''bonus'' then ''heavy'' else ''medium'')) s;
         s2 = incrementScore (tscore ty) s1;
         s3 = (case extraTime ty of
                 None \<Rightarrow> s2
               | Some x \<Rightarrow>
                   if x = 0 then s2
                   else s2\<lparr>timeLeft := min GAME_DURATION (timeLeft s2 + x)\<rparr>);
         s4 = s3\<lparr>orbs := (orbs s3)[r := (orbs s3 ! r)\<lparr>collected := True\<rparr>]\<rparr>
     in snd (setTimer (RemoveCollectedT r) 220 s4))"

definition typeOf :: "orb \<Rightarrow> orb_type" where
  "typeOf el =
    (case find (\<lambda>t. name t = otype el) ORB_TYPES of Some t \<Rightarrow> t | None \<Rightarrow> ORB_TYPES ! 0)"

definition handleOrbTap :: "game \<Rightarrow> nat \<Rightarrow> game" where
  "handleOrbTap s r =
    (case orbAt s r of
       None \<Rightarrow> s
     | Some el \<Rightarrow>
         if \<not> isRunning s \<or> captured el then s
         else
           let s1 = s\<lparr>orbs := (orbs s)[r := el\<lparr>captured := True\<rparr>]\<rparr>
           in collectOrb s1 r (typeOf el))"

text \<open>
  The \<open>pointerdown\<close> listener of the play area: it returns when the event has no orb as
  its target and hands the orb to \<open>handleOrbTap\<close> otherwise. A reference to no element
  stands for a target that is no orb. That the browser delivers the event for elements in
  the play area only is not assumed.
\<close>

definition pointerdown :: "game \<Rightarrow> nat \<Rightarrow> game" where
  "pointerdown s r =
    (case orbAt s r of
       None \<Rightarrow> s
     | Some el \<Rightarrow> handleOrbTap s r)"

definition detach :: "nat \<Rightarrow> game \<Rightarrow> game" where
  "detach r s =
    (if r < length (orbs s)
     then s\<lparr>orbs := (orbs s)[r := (orbs s ! r)\<lparr>isConnected := False\<rparr>]\<rparr>
     else s)"

definition removeOrb :: "game \<Rightarrow> nat \<Rightarrow> bool \<Rightarrow> game" where
  "removeOrb s r expired =
    (case orbAt s r of
       None \<Rightarrow> s
     | Some el \<Rightarrow>
         if \<not> isConnected el then s
         else if captured el then s
         else
           let s1 = detach r s
           in if expired \<and> isRunning s1 then haptics (Impact ''light'') s1 else s1)"

subsection \<open>Countdown and session control\<close>

definition finish :: "game \<Rightarrow> game" where
  "finish s =
    (let s1 = s\<lparr>isRunning := False\<rparr>;
         s2 = clearTimer (spawnTimeout s1) s1;
         s3 = clearTimer (timerInterval s2) s2;
         s4 = s3\<lparr>spawnTimeout := None, timerInterval := None, overlayHidden := False\<rparr>
     in haptics (Notification ''success'') s4)"

definition tick :: "game \<Rightarrow> game" where
  "tick s =
    (let s1 = s\<lparr>timeLeft := timeLeft s - 1\<rparr>
     in if timeLeft s1 \<le> 0 then finish s1 else s1)"

definition startTimer :: "game \<Rightarrow> game" where
  "startTimer s = (let (h, s1) = setTimer TickT 1000 s in s1\<lparr>timerInterval := Some h\<rparr>)"

definition resetState :: "game \<Rightarrow> game" where
  "resetState s =
    (let s1 = s\<lparr>score := 0, timeLeft := GAME_DURATION\<rparr>;
         s2 = s1\<lparr>orbs := map (\<lambda>el. el\<lparr>isConnected := False\<rparr>) (orbs s1)\<rparr>;
         s3 = clearTimer (spawnTimeout s2) s2;
         s4 = clearTimer (timerInterval s3) s3
     in s4\<lparr>spawnTimeout := None, timerInterval := None\<rparr>)"

definition start :: "game \<Rightarrow> draws \<Rightarrow> game" where
  "start s d =
    (let s1 = resetState s;
         s2 = s1\<lparr>isRunning := True, overlayHidden := True\<rparr>;
         s3 = spawnLoop s2 d;
         s4 = startTimer s3;
         s5 = clearTimer (hintTimeoutId s4) s4;
         (h, s6) = setTimer HintT HINT_TIMEOUT (s5\<lparr>hintVisible := True\<rparr>)
     in haptics (Notification ''success'') (s6\<lparr>hintTimeoutId := Some h\<rparr>))"

definition pause :: "game \<Rightarrow> game" where
  "pause s =
    (if \<not> isRunning s then s
     else
       let s1 = clearTimer (spawnTimeout s) s;
           s2 = clearTimer (timerInterval s1) s1
       in s2\<lparr>spawnTimeout := None, timerInterval := None\<rparr>)"

definition resume :: "game \<Rightarrow> draws \<Rightarrow> game" where
  "resume s d = (if \<not> isRunning s then s else startTimer (spawnLoop s d))"

definition handleVisibilityChange :: "game \<Rightarrow> bool \<Rightarrow> draws \<Rightarrow> game" where
  "handleVisibilityChange s hidden d =
    (if hidden then pause s else if isRunning s then resume s d else s)"

subsection \<open>Events\<close>

text \<open>
  A pending timer fires: a timeout leaves the table before its callback runs, the tick
  interval stays. Firing a handle that is not pending does nothing. Time itself is not
  modelled: any pending timer may fire next.
\<close>

definition fire :: "game \<Rightarrow> nat \<Rightarrow> draws \<Rightarrow> game" where
  "fire s h d =
    (case find (\<lambda>t. handle t = h) (timers s) of
       None \<Rightarrow> s
     | Some t \<Rightarrow>
         (case kind t of
            TickT \<Rightarrow> tick s
          | SpawnLoopT \<Rightarrow> spawnLoop (clearTimer (Some h) s) d
          | ExpireT r \<Rightarrow> removeOrb (clearTimer (Some h) s) r True
          | RemoveCollectedT r \<Rightarrow> detach r (clearTimer (Some h) s)
          | HintT \<Rightarrow> (clearTimer (Some h) s)\<lparr>hintVisible := False\<rparr>))"

datatype event =
    Start draws
  | Pause
  | Resume draws
  | VisibilityChange bool draws
  | PointerDown nat
  | Fire nat draws

fun step :: "game \<Rightarrow> event \<Rightarrow> game" where
  "step s (Start d) = start s d"
| "step s Pause = pause s"
| "step s (Resume d) = resume s d"
| "step s (VisibilityChange hidden d) = handleVisibilityChange s hidden d"
| "step s (PointerDown r) = pointerdown s r"
| "step s (Fire h d) = fire s h d"

definition run :: "game \<Rightarrow> event list \<Rightarrow> game" where
  "run s es = foldl step s es"

definition isStart :: "event \<Rightarrow> bool" where
  "isStart e = (case e of Start d \<Rightarrow> True | _ \<Rightarrow> False)"

definition mid :: draws where
  "mid = \<lparr>roll = 1 / 2, life = 1 / 2, jitter = 1 / 2\<rparr>"

subsection \<open>Notions used by the properties\<close>

text \<open>The \<open>dataset.id\<close> of every orb element created so far, in creation order.\<close>

definition ids :: "game \<Rightarrow> nat list" where
  "ids s = map oid (orbs s)"

text \<open>The pending spawn and tick timers; \<open>quiet\<close>: there is none.\<close>

definition spawnTickTimers :: "game \<Rightarrow> timer list" where
  "spawnTickTimers s = filter (\<lambda>t. kind t = SpawnLoopT \<or> kind t = TickT) (timers s)"

definition quiet :: "game \<Rightarrow> bool" where
  "quiet s = (spawnTickTimers s = [])"

text \<open>
  \<open>tracked\<close>: every pending spawn timer is the one whose handle is in \<open>spawnTimeout\<close>, and
  every pending tick timer the one whose handle is in \<open>timerInterval\<close>; the engine can
  cancel no other.
\<close>

definition tracked :: "game \<Rightarrow> bool" where
  "tracked s =
    (\<forall>t\<in>set (timers s).
       (kind t = SpawnLoopT \<longrightarrow> spawnTimeout s = Some (handle t)) \<and>
       (kind t = TickT \<longrightarrow> timerInterval s = Some (handle t)))"

text \<open>
  The cumulative weight of the catalog entry at position \<open>i\<close>: the running sum of the
  weights of the entries up to and including it, in declared order, added as the loop
  adds them.
\<close>

definition cumulativeWeight :: "orb_type list \<Rightarrow> nat \<Rightarrow> real" where
  "cumulativeWeight cat i = foldl dadd 0 (map weight (take (Suc i) cat))"

text \<open>The events that arm the spawn loop and the countdown.\<close>

definition rearms :: "event \<Rightarrow> bool" where
  "rearms e =
    (case e of Start d \<Rightarrow> True | Resume d \<Rightarrow> True | VisibilityChange hidden d \<Rightarrow> \<not> hidden
     | _ \<Rightarrow> False)"

section \<open>Properties\<close>

lemmas engine_defs = start_def resetState_def clearTimer_def spawnLoop_def spawnOrb_def
  setTimer_def startTimer_def haptics_def pause_def resume_def handleVisibilityChange_def
  finish_def tick_def removeOrb_def detach_def pointerdown_def handleOrbTap_def collectOrb_def
  incrementScore_def fire_def orbAt_def

text \<open>The roll 1/2 gives the first type of the catalog.\<close>

lemma pickOrbType_half: "name (pickOrbType (1 / 2)) = ''common''"
  by code_simp

lemmas const_defs = GAME_DURATION_def ORB_LIFETIME_def HINT_TIMEOUT_def SPAWN_CONFIG_def
  ORB_TYPES_def pickOrbType_half activeConfig_def spawnDelay_def typeOf_def init_def mid_def
  run_def

subsection \<open>The countdown never exceeds the session duration\<close>

lemma timeLeft_step: "timeLeft s \<le> GAME_DURATION \<Longrightarrow> timeLeft (step s e) \<le> GAME_DURATION"
  by (cases e)
    (auto simp: engine_defs Let_def split_def GAME_DURATION_def
      split: option.splits timer_kind.splits)

lemma timeLeft_run: "timeLeft s \<le> GAME_DURATION \<Longrightarrow> timeLeft (run s es) \<le> GAME_DURATION"
  unfolding run_def by (induction es arbitrary: s) (simp_all add: timeLeft_step)

lemma timeLeft_collectOrb:
  "timeLeft (collectOrb s r ty) =
    (case extraTime ty of
       None \<Rightarrow> timeLeft s
     | Some x \<Rightarrow> if x = 0 then timeLeft s else min GAME_DURATION (timeLeft s + x))"
  by (simp add: collectOrb_def setTimer_def incrementScore_def haptics_def Let_def
      split: option.splits)

text \<open>
  C4. In every state the engine reaches from its constructor, by any sequence of events,
  \<open>timeLeft\<close> is at most \<open>GAME_DURATION = 60\<close>; a capture that grants extra time sets
  \<open>timeLeft\<close> to the minimum of the duration and the sum.
\<close>

theorem timeLeft_capped:
  "GAME_DURATION = 60 \<and>
   timeLeft (run init es) \<le> GAME_DURATION \<and>
   timeLeft (collectOrb s r ty) =
     (case extraTime ty of
        None \<Rightarrow> timeLeft s
      | Some x \<Rightarrow> if x = 0 then timeLeft s else min GAME_DURATION (timeLeft s + x))"
proof -
  have "timeLeft init \<le> GAME_DURATION" by (simp add: init_def)
  then have "timeLeft (run init es) \<le> GAME_DURATION" by (rule timeLeft_run)
  then show ?thesis by (simp add: timeLeft_collectOrb) (simp add: GAME_DURATION_def)
qed

subsection \<open>Orb ids\<close>

lemma ids_step:
  "ids (step s e) = ids s \<and> orbId (step s e) = orbId s \<or>
   ids (step s e) = ids s @ [Suc (orbId s)] \<and> orbId (step s e) = Suc (orbId s)"
  by (cases e)
    (auto simp: ids_def engine_defs Let_def split_def comp_def map_update list_update_same_conv
      split: option.splits timer_kind.splits)

lemma ids_run:
  "sorted_wrt (<) (ids s) \<Longrightarrow> \<forall>i\<in>set (ids s). i \<le> orbId s \<Longrightarrow>
    sorted_wrt (<) (ids (run s es)) \<and> (\<forall>i\<in>set (ids (run s es)). i \<le> orbId (run s es))"
  unfolding run_def
proof (induction es arbitrary: s)
  case Nil
  then show ?case by simp
next
  case (Cons e es)
  have "sorted_wrt (<) (ids (step s e)) \<and> (\<forall>i\<in>set (ids (step s e)). i \<le> orbId (step s e))"
    using ids_step [of s e] Cons.prems
    by (auto simp: sorted_wrt_append less_Suc_eq_le le_SucI)
  then show ?case using Cons.IH [of "step s e"] by simp
qed

lemma orbId_start: "orbId (start s d) = Suc (orbId s)"
  by (simp add: engine_defs Let_def split_def split: option.splits)

text \<open>
  C9. The ids of all orbs the engine ever created, over every sequence of events from the
  constructor state (so over all sessions), are strictly increasing in creation order,
  hence pairwise distinct; no event lowers the counter \<open>orbId\<close>, \<open>resetState\<close> leaves it
  as it is, and \<open>start\<close> advances it by the one orb it spawns.
\<close>

theorem orb_ids_unique:
  "sorted_wrt (<) (ids (run init es)) \<and>
   distinct (ids (run init es)) \<and>
   orbId s \<le> orbId (step s e) \<and>
   orbId (resetState s) = orbId s \<and>
   orbId (start s d) = Suc (orbId s)"
proof -
  have "sorted_wrt (<) (ids init)" and "\<forall>i\<in>set (ids init). i \<le> orbId init"
    by (simp_all add: ids_def init_def)
  then have srt: "sorted_wrt (<) (ids (run init es))"
    using ids_run by blast
  then have "distinct (ids (run init es))"
    by (simp add: strict_sorted_iff)
  moreover have "orbId s \<le> orbId (step s e)"
    using ids_step [of s e] by auto
  moreover have "orbId (resetState s) = orbId s"
    by (simp add: resetState_def clearTimer_def Let_def split: option.splits)
  ultimately show ?thesis using srt by (simp add: orbId_start)
qed

theorem orb_ids_unique_witness:
  "ids (run init [Start mid, Fire 2 mid, Start mid]) = [1, 2, 3] \<and>
   distinct (ids (run init [Start mid, Fire 2 mid, Start mid]))"
  using orb_ids_unique [of "[Start mid, Fire 2 mid, Start mid]" init Pause mid]
  by (simp add: ids_def engine_defs const_defs Let_def split_def)

subsection \<open>Score\<close>

lemma tscore_typeOf: "0 \<le> tscore (typeOf el)"
  by (simp add: typeOf_def ORB_TYPES_def)

lemma score_step: "\<not> isStart e \<Longrightarrow> score s \<le> score (step s e)"
  using tscore_typeOf
  by (cases e)
    (auto simp: isStart_def engine_defs Let_def split_def
      split: option.splits timer_kind.splits)

lemma idle_step:
  "\<not> isStart e \<Longrightarrow> \<not> isRunning s \<Longrightarrow> score (step s e) = score s \<and> \<not> isRunning (step s e)"
  by (cases e)
    (auto simp: isStart_def engine_defs Let_def split_def
      split: option.splits timer_kind.splits)

lemma score_run: "\<forall>e\<in>set es. \<not> isStart e \<Longrightarrow> score s \<le> score (run s es)"
  unfolding run_def
proof (induction es arbitrary: s)
  case Nil
  show ?case by simp
next
  case (Cons e es)
  have "score s \<le> score (step s e)" using Cons.prems by (simp add: score_step)
  also have "\<dots> \<le> score (foldl step (step s e) es)" using Cons by simp
  finally show ?case by simp
qed

lemma idle_run:
  "\<forall>e\<in>set es. \<not> isStart e \<Longrightarrow> \<not> isRunning s \<Longrightarrow>
    score (run s es) = score s \<and> \<not> isRunning (run s es)"
  unfolding run_def
  by (induction es arbitrary: s) (simp_all add: idle_step)

text \<open>
  C2, as the claim states it, fails: \<open>pause\<close> cancels the two timers and leaves
  \<open>isRunning\<close> set, and the tap handler tests \<open>isRunning\<close> only. After \<open>start\<close> and
  \<open>pause\<close> the score is 0 and both timer handles are cleared; a tap on the orb that
  \<open>start\<close> spawned raises the score to 1.
\<close>

theorem score_paused_counterexample:
  "isRunning (run init [Start mid, Pause]) \<and>
   spawnTimeout (run init [Start mid, Pause]) = None \<and>
   timerInterval (run init [Start mid, Pause]) = None \<and>
   score (run init [Start mid, Pause]) = 0 \<and>
   score (step (run init [Start mid, Pause]) (PointerDown 0)) = 1"
  by (simp add: engine_defs const_defs Let_def split_def)

text \<open>
  C2, amended. Over any events other than \<open>start\<close> the score never decreases, in every
  state; and once \<open>isRunning\<close> is false (before the first \<open>start\<close>, or after \<open>finish\<close>)
  the score stays as it is, and \<open>isRunning\<close> stays false, until the next \<open>start\<close>.
\<close>

theorem score_monotone:
  "(\<not> isStart e \<longrightarrow> score s \<le> score (step s e)) \<and>
   ((\<forall>e\<in>set es. \<not> isStart e) \<longrightarrow> score s \<le> score (run s es)) \<and>
   ((\<forall>e\<in>set es. \<not> isStart e) \<longrightarrow> \<not> isRunning s \<longrightarrow>
      score (run s es) = score s \<and> \<not> isRunning (run s es))"
  using score_step [of e s] score_run [of es s] idle_run [of es s] by blast

theorem score_monotone_witness:
  "\<not> isStart (PointerDown 0) \<and>
   list_all (\<lambda>e. \<not> isStart e) [PointerDown 0, Resume mid, Fire 1 mid] \<and>
   \<not> isRunning (finish (run init [Start mid])) \<and>
   score (run (finish (run init [Start mid])) [PointerDown 0, Resume mid, Fire 1 mid])
     = score (finish (run init [Start mid])) \<and>
   score (run init [Start mid]) \<le> score (step (run init [Start mid]) (PointerDown 0))"
proof -
  have a: "\<not> isRunning (finish (run init [Start mid]))"
    by (simp add: finish_def clearTimer_def haptics_def Let_def split: option.splits)
  have b: "\<forall>e\<in>set [PointerDown 0, Resume mid, Fire 1 mid]. \<not> isStart e"
    by (simp add: isStart_def)
  have c: "\<not> isStart (PointerDown 0)"
    by (simp add: isStart_def)
  show ?thesis
    using score_monotone [of "PointerDown 0" "finish (run init [Start mid])"
        "[PointerDown 0, Resume mid, Fire 1 mid]"]
      score_monotone [of "PointerDown 0" "run init [Start mid]" "[]"] a b c
    unfolding list_all_iff by blast
qed

subsection \<open>Tap against expiry\<close>














subsection \<open>Stale expiry timers\<close>

text \<open>
  C10. The expiry callback of an orb that is no longer in the play area returns at its
  first guard: \<open>removeOrb\<close> leaves the whole state as it is (no feedback), and firing the
  orb's expiry timer changes nothing but the timer table, which loses the timer that
  fired.
\<close>

theorem stale_expiry_noop:
  "orbAt s r = Some el \<Longrightarrow> \<not> isConnected el \<Longrightarrow>
    removeOrb s r True = s \<and>
    (\<forall>t. find (\<lambda>t. handle t = h) (timers s) = Some t \<longrightarrow> kind t = ExpireT r \<longrightarrow>
       fire s h d = s\<lparr>timers := filter (\<lambda>t. handle t \<noteq> h) (timers s)\<rparr>)"
  by (auto simp: engine_defs Let_def split: option.splits)

theorem stale_expiry_noop_witness:
  "orbAt (run init [Start mid, Start mid]) 0 =
     Some \<lparr>oid = 1, otype = ''common'', captured = False, isConnected = False, collected = False\<rparr> \<and>
   find (\<lambda>t. handle t = 1) (timers (run init [Start mid, Start mid])) =
     Some \<lparr>handle = 1, kind = ExpireT 0, delay = 2500\<rparr> \<and>
   removeOrb (run init [Start mid, Start mid]) 0 True = run init [Start mid, Start mid] \<and>
   fire (run init [Start mid, Start mid]) 1 mid =
     (run init [Start mid, Start mid])
       \<lparr>timers := filter (\<lambda>t. handle t \<noteq> 1) (timers (run init [Start mid, Start mid]))\<rparr>"
proof -
  have o: "orbAt (run init [Start mid, Start mid]) 0 =
     Some \<lparr>oid = 1, otype = ''common'', captured = False, isConnected = False, collected = False\<rparr>"
    by (simp add: engine_defs const_defs Let_def split_def)
  have t: "find (\<lambda>t. handle t = 1) (timers (run init [Start mid, Start mid])) =
     Some \<lparr>handle = 1, kind = ExpireT 0, delay = 2500\<rparr>"
    by (simp add: engine_defs const_defs Let_def split_def)
  show ?thesis
    using stale_expiry_noop [OF o, of 1 mid] o t by simp
qed

subsection \<open>Resume\<close>

lemma resume_idle: "\<not> isRunning s \<Longrightarrow> resume s d = s"
  by (simp add: resume_def)

lemma resume_fields:
  "score (resume s d) = score s"
  "timeLeft (resume s d) = timeLeft s"
  by (simp_all add: resume_def startTimer_def spawnLoop_def spawnOrb_def setTimer_def
      Let_def split_def)

lemma resume_running:
  assumes "isRunning s"
  shows "timers (resume s d) = timers s @
      [\<lparr>handle = nextHandle s, kind = ExpireT (length (orbs s)),
         delay = ORB_LIFETIME + life d * 600\<rparr>,
       \<lparr>handle = Suc (nextHandle s), kind = SpawnLoopT,
         delay = spawnDelay (score s) (jitter d)\<rparr>,
       \<lparr>handle = Suc (Suc (nextHandle s)), kind = TickT, delay = 1000\<rparr>]"
    and "spawnTimeout (resume s d) = Some (Suc (nextHandle s))"
    and "timerInterval (resume s d) = Some (Suc (Suc (nextHandle s)))"
    and "length (orbs (resume s d)) = Suc (length (orbs s))"
  using assms
  by (simp_all add: resume_def startTimer_def spawnLoop_def spawnOrb_def setTimer_def
      Let_def split_def)

text \<open>
  C5, as the claim states it, fails for a running session that was not paused: \<open>resume\<close>
  tests \<open>isRunning\<close> only. Right after \<open>start\<close> the pending timers are the expiry of the
  first orb, the spawn timeout, the tick interval and the hint timeout; \<open>resume\<close> then
  spawns a second orb and arms a second spawn timeout and a second tick interval beside
  the first ones.
\<close>

theorem resume_running_counterexample:
  "isRunning (run init [Start mid]) \<and>
   spawnTimeout (run init [Start mid]) = Some 2 \<and>
   timerInterval (run init [Start mid]) = Some 3 \<and>
   map kind (timers (run init [Start mid])) = [ExpireT 0, SpawnLoopT, TickT, HintT] \<and>
   map kind (timers (resume (run init [Start mid]) mid)) =
     [ExpireT 0, SpawnLoopT, TickT, HintT, ExpireT 1, SpawnLoopT, TickT] \<and>
   map handle (timers (resume (run init [Start mid]) mid)) = [1, 2, 3, 4, 5, 6, 7]"
  by (simp add: engine_defs const_defs Let_def split_def)

text \<open>
  C5, amended. \<open>resume\<close> changes nothing when \<open>isRunning\<close> is false (before the first
  \<open>start\<close>, after \<open>finish\<close>). It never changes score or time. Whenever \<open>isRunning\<close> is
  true, paused or not, it spawns one orb and adds three pending timers: the orb's expiry,
  a spawn timeout and a tick interval, whose handles it stores.
\<close>

theorem resume_effect:
  "(\<not> isRunning s \<longrightarrow> resume s d = s) \<and>
   score (resume s d) = score s \<and>
   timeLeft (resume s d) = timeLeft s \<and>
   (isRunning s \<longrightarrow>
      timers (resume s d) = timers s @
        [\<lparr>handle = nextHandle s, kind = ExpireT (length (orbs s)),
           delay = ORB_LIFETIME + life d * 600\<rparr>,
         \<lparr>handle = Suc (nextHandle s), kind = SpawnLoopT,
           delay = spawnDelay (score s) (jitter d)\<rparr>,
         \<lparr>handle = Suc (Suc (nextHandle s)), kind = TickT, delay = 1000\<rparr>] \<and>
      spawnTimeout (resume s d) = Some (Suc (nextHandle s)) \<and>
      timerInterval (resume s d) = Some (Suc (Suc (nextHandle s))) \<and>
      length (orbs (resume s d)) = Suc (length (orbs s)))"
  using resume_idle [of s d] resume_fields [of s d] resume_running [of s d] by blast

theorem resume_effect_witness:
  "\<not> isRunning init \<and> resume init mid = init \<and>
   isRunning (run init [Start mid, Pause]) \<and>
   spawnTimeout (resume (run init [Start mid, Pause]) mid) = Some 6 \<and>
   timerInterval (resume (run init [Start mid, Pause]) mid) = Some 7 \<and>
   score (resume (run init [Start mid, Pause]) mid) = 0"
proof -
  have a: "\<not> isRunning init" by (simp add: init_def)
  have b: "isRunning (run init [Start mid, Pause])"
    "nextHandle (run init [Start mid, Pause]) = 5"
    "score (run init [Start mid, Pause]) = 0"
    by (simp_all add: engine_defs const_defs Let_def split_def)
  show ?thesis
    using resume_effect [of init mid] resume_effect [of "run init [Start mid, Pause]" mid] a b
    by simp
qed

subsection \<open>Pause\<close>

lemma quiet_find:
  "quiet s \<Longrightarrow> find (\<lambda>t. handle t = h) (timers s) = Some t \<Longrightarrow>
    kind t \<noteq> SpawnLoopT \<and> kind t \<noteq> TickT"
  by (auto simp: quiet_def spawnTickTimers_def filter_empty_conv find_Some_iff)

lemma quiet_step:
  assumes "quiet s" "\<not> rearms e"
  shows "quiet (step s e) \<and> orbId (step s e) = orbId s \<and>
    length (orbs (step s e)) = length (orbs s)"
proof (cases e)
  case (Fire h d)
  show ?thesis
  proof (cases "find (\<lambda>t. handle t = h) (timers s)")
    case None
    then show ?thesis using assms Fire by (simp add: fire_def)
  next
    case (Some t)
    with quiet_find [OF assms(1) Some] assms(1) show ?thesis
      unfolding Fire
      by (cases "kind t")
        (auto simp: engine_defs quiet_def spawnTickTimers_def filter_empty_conv Let_def)
  qed
qed (use assms in \<open>auto simp: rearms_def engine_defs quiet_def spawnTickTimers_def
      filter_empty_conv Let_def split: option.splits\<close>)

lemma quiet_run:
  "quiet s \<Longrightarrow> \<forall>e\<in>set es. \<not> rearms e \<Longrightarrow>
    quiet (run s es) \<and> orbId (run s es) = orbId s \<and> length (orbs (run s es)) = length (orbs s)"
  unfolding run_def
proof (induction es arbitrary: s)
  case Nil
  then show ?case by simp
next
  case (Cons e es)
  then have "quiet (step s e) \<and> orbId (step s e) = orbId s \<and>
      length (orbs (step s e)) = length (orbs s)"
    by (simp add: quiet_step)
  then show ?case using Cons.IH [of "step s e"] Cons.prems by simp
qed

lemma pause_running:
  assumes "isRunning s"
  shows "spawnTimeout (pause s) = None" and "timerInterval (pause s) = None"
    and "timers (pause s) =
      filter (\<lambda>t. Some (handle t) \<noteq> spawnTimeout s \<and> Some (handle t) \<noteq> timerInterval s)
        (timers s)"
    and "orbId (pause s) = orbId s"
    and "nextHandle (pause s) = nextHandle s"
  using assms
  by (auto simp: pause_def clearTimer_def Let_def split: option.splits intro: filter_cong)

lemma pause_quiet: "tracked s \<Longrightarrow> isRunning s \<Longrightarrow> quiet (pause s)"
  by (auto simp: pause_running quiet_def spawnTickTimers_def filter_empty_conv tracked_def)

lemma resume_after_pause:
  assumes "tracked s" "isRunning s"
  shows "spawnTickTimers (resume (pause s) d) =
      [\<lparr>handle = Suc (nextHandle s), kind = SpawnLoopT,
         delay = spawnDelay (score s) (jitter d)\<rparr>,
       \<lparr>handle = Suc (Suc (nextHandle s)), kind = TickT, delay = 1000\<rparr>]"
proof -
  have run: "isRunning (pause s)" using assms(2) by (simp add: pause_def clearTimer_def Let_def split: option.splits)
  have sc: "score (pause s) = score s" by (simp add: pause_def clearTimer_def Let_def split: option.splits)
  have "spawnTickTimers (pause s) = []"
    using pause_quiet [OF assms] by (simp add: quiet_def)
  then show ?thesis
    using resume_running(1) [OF run, of d]
    by (simp add: spawnTickTimers_def pause_running(5) [OF assms(2)] sc)
qed

lemma tracked_init: "tracked init"
  by (simp add: tracked_def init_def)

text \<open>
  C3, as the claim states it, fails for expiry timers: \<open>spawnOrb\<close> drops the handle of the
  expiry timeout, so nothing can cancel it. After \<open>start\<close> and \<open>pause\<close> the expiry timer
  of the first orb is still pending (with the hint timeout); when it fires, the orb leaves
  the play area and, \<open>isRunning\<close> being still set, light impact feedback is requested.
\<close>

theorem pause_expiry_counterexample:
  "timers (run init [Start mid, Pause]) =
     [\<lparr>handle = 1, kind = ExpireT 0, delay = 2500\<rparr>, \<lparr>handle = 4, kind = HintT, delay = 2500\<rparr>] \<and>
   feedback (run init [Start mid, Pause]) = [Notification ''success''] \<and>
   isConnected (orbs (run init [Start mid, Pause]) ! 0) \<and>
   feedback (step (run init [Start mid, Pause]) (Fire 1 mid)) =
     [Notification ''success'', Impact ''light''] \<and>
   \<not> isConnected (orbs (step (run init [Start mid, Pause]) (Fire 1 mid)) ! 0)"
  by (simp add: engine_defs const_defs Let_def split_def)

text \<open>
  C3, amended. In a running session whose pending spawn and tick timers are the ones held
  in \<open>spawnTimeout\<close> and \<open>timerInterval\<close>, \<open>pause\<close> cancels exactly the timers with these
  two handles and clears both fields; no spawn or tick timer is pending afterwards, and
  none becomes pending, nor is any orb spawned, under any events up to the next
  \<open>resume\<close> or \<open>start\<close>. Every other pending timer, the orb expiry timers among them,
  stays pending. \<open>resume\<close> after \<open>pause\<close> leaves exactly one spawn timeout and one tick
  interval pending, both new.
\<close>

theorem pause_cancels:
  assumes "tracked s" and "isRunning s"
  shows "spawnTimeout (pause s) = None \<and> timerInterval (pause s) = None \<and>
    timers (pause s) =
      filter (\<lambda>t. Some (handle t) \<noteq> spawnTimeout s \<and> Some (handle t) \<noteq> timerInterval s)
        (timers s) \<and>
    quiet (pause s) \<and>
    ((\<forall>e\<in>set es. \<not> rearms e) \<longrightarrow>
       quiet (run (pause s) es) \<and> orbId (run (pause s) es) = orbId s) \<and>
    spawnTickTimers (resume (pause s) d) =
      [\<lparr>handle = Suc (nextHandle s), kind = SpawnLoopT,
         delay = spawnDelay (score s) (jitter d)\<rparr>,
       \<lparr>handle = Suc (Suc (nextHandle s)), kind = TickT, delay = 1000\<rparr>]"
proof -
  have q: "quiet (pause s)" using assms by (rule pause_quiet)
  have "(\<forall>e\<in>set es. \<not> rearms e) \<longrightarrow>
      quiet (run (pause s) es) \<and> orbId (run (pause s) es) = orbId s"
    using quiet_run [OF q, of es] pause_running(4) [OF assms(2)] by simp
  then show ?thesis
    using q pause_running(1,2,3) [OF assms(2)] resume_after_pause [OF assms, of d] by simp
qed

theorem pause_cancels_witness:
  "tracked (run init [Start mid]) \<and> isRunning (run init [Start mid]) \<and>
   list_all (\<lambda>e. \<not> rearms e) [PointerDown 0, Fire 1 mid, Pause] \<and>
   quiet (run (pause (run init [Start mid])) [PointerDown 0, Fire 1 mid, Pause]) \<and>
   orbId (run (pause (run init [Start mid])) [PointerDown 0, Fire 1 mid, Pause]) = 1 \<and>
   map handle (spawnTickTimers (resume (pause (run init [Start mid])) mid)) = [6, 7]"
proof -
  have a: "tracked (run init [Start mid])" "isRunning (run init [Start mid])"
    "orbId (run init [Start mid]) = 1" "nextHandle (run init [Start mid]) = 5"
    by (simp_all add: tracked_def engine_defs const_defs Let_def split_def)
  have b: "\<forall>e\<in>set [PointerDown 0, Fire 1 mid, Pause]. \<not> rearms e"
    by (simp add: rearms_def)
  show ?thesis
    using pause_cancels [OF a(1,2), of "[PointerDown 0, Fire 1 mid, Pause]" mid] a b
    by (simp add: list_all_iff)
qed

text \<open>
  \<open>tracked\<close> holds in the constructor state and is kept by every event, as long as
  \<open>resume\<close> (directly or on becoming visible) comes only when no spawn or tick timer is
  pending, that is after \<open>pause\<close>, or when the session is not running.
\<close>

lemma tracked_step:
  assumes "tracked s" and "rearms e \<Longrightarrow> isStart e \<or> quiet s \<or> \<not> isRunning s"
  shows "tracked (step s e)"
proof (cases e)
  case (Fire h d)
  show ?thesis
  proof (cases "find (\<lambda>t. handle t = h) (timers s)")
    case None
    then show ?thesis using assms Fire by (simp add: fire_def)
  next
    case (Some t)
    then have t: "t \<in> set (timers s)" "handle t = h"
      by (auto simp: find_Some_iff)
    have sp: "kind t = SpawnLoopT \<Longrightarrow> \<forall>u\<in>set (timers s). kind u = SpawnLoopT \<longrightarrow> handle u = h"
      using assms(1) t unfolding tracked_def by (metis option.inject)
    have tk: "kind t = TickT \<Longrightarrow> \<forall>u\<in>set (timers s). kind u = TickT \<longrightarrow> handle u = h"
      using assms(1) t unfolding tracked_def by (metis option.inject)
    from assms(1) Some t sp tk show ?thesis
      unfolding Fire
      by (cases "kind t")
        (auto simp: engine_defs tracked_def Let_def split: option.splits)
  qed
qed (use assms in \<open>auto simp: isStart_def rearms_def engine_defs tracked_def quiet_def
      spawnTickTimers_def filter_empty_conv Let_def split: option.splits\<close>)

subsection \<open>The countdown and the end of a session\<close>

lemma tick_timeLeft: "timeLeft (tick s) = timeLeft s - 1"
  by (simp add: tick_def finish_def clearTimer_def haptics_def Let_def split: option.splits)

lemma tick_continue: "1 < timeLeft s \<Longrightarrow> tick s = s\<lparr>timeLeft := timeLeft s - 1\<rparr>"
  by (simp add: tick_def Let_def)

lemma tick_finish:
  assumes "timeLeft s \<le> 1"
  shows "\<not> isRunning (tick s)" and "spawnTimeout (tick s) = None"
    and "timerInterval (tick s) = None"
    and "feedback (tick s) = feedback s @ [Notification ''success'']"
    and "orbs (tick s) = orbs s" and "score (tick s) = score s"
    and "tracked s \<Longrightarrow> quiet (tick s)"
  using assms
  by (auto simp: tick_def finish_def clearTimer_def haptics_def Let_def tracked_def quiet_def
      spawnTickTimers_def filter_empty_conv split: option.splits)

lemma finished_step:
  assumes "\<not> isRunning s" "quiet s" "\<not> isStart e"
  shows "\<not> isRunning (step s e) \<and> quiet (step s e) \<and> length (orbs (step s e)) = length (orbs s) \<and>
    timeLeft (step s e) = timeLeft s \<and> feedback (step s e) = feedback s \<and>
    score (step s e) = score s"
proof (cases e)
  case (Fire h d)
  show ?thesis
  proof (cases "find (\<lambda>t. handle t = h) (timers s)")
    case None
    then show ?thesis using assms Fire by (simp add: fire_def)
  next
    case (Some t)
    with quiet_find [OF assms(2) Some] assms(1,2) show ?thesis
      unfolding Fire
      by (cases "kind t")
        (auto simp: engine_defs quiet_def spawnTickTimers_def filter_empty_conv Let_def)
  qed
qed (use assms in \<open>auto simp: isStart_def engine_defs quiet_def spawnTickTimers_def
      filter_empty_conv Let_def split: option.splits\<close>)

lemma finished_run:
  "\<not> isRunning s \<Longrightarrow> quiet s \<Longrightarrow> \<forall>e\<in>set es. \<not> isStart e \<Longrightarrow>
    \<not> isRunning (run s es) \<and> quiet (run s es) \<and> length (orbs (run s es)) = length (orbs s) \<and>
    timeLeft (run s es) = timeLeft s \<and> feedback (run s es) = feedback s \<and>
    score (run s es) = score s"
  unfolding run_def
proof (induction es arbitrary: s)
  case Nil
  then show ?case by simp
next
  case (Cons e es)
  then have st: "\<not> isRunning (step s e) \<and> quiet (step s e) \<and>
      length (orbs (step s e)) = length (orbs s) \<and> timeLeft (step s e) = timeLeft s \<and>
      feedback (step s e) = feedback s \<and> score (step s e) = score s"
    by (simp add: finished_step)
  then show ?case using Cons.IH [of "step s e"] Cons.prems by simp
qed

lemma tick_orbId: "orbId (tick s) = orbId s"
  by (simp add: tick_def finish_def clearTimer_def haptics_def Let_def split: option.splits)

lemma tick_timers:
  "timeLeft s \<le> 1 \<Longrightarrow>
    timers (tick s) =
      filter (\<lambda>t. Some (handle t) \<noteq> spawnTimeout s \<and> Some (handle t) \<noteq> timerInterval s)
        (timers s)"
  by (auto simp: tick_def finish_def clearTimer_def haptics_def Let_def split: option.splits
      intro: filter_cong)

text \<open>
  C7, as the claim states it, fails when a second tick interval is pending, which \<open>resume\<close>
  in a running session that was not paused brings about. After \<open>start\<close> and \<open>resume\<close> the
  intervals 3 and 7 tick in turn; the 60th tick brings \<open>timeLeft\<close> to 0 and \<open>finish\<close>
  cancels interval 7, the one it holds. Interval 3 is still pending: its next tick takes
  \<open>timeLeft\<close> to -1 and runs \<open>finish\<close> again, with a further success notification.
  Events that touch neither \<open>timeLeft\<close> nor the tick timers are left out of the run.
\<close>

theorem finish_twice_counterexample:
  "timeLeft (run init (Start mid # Resume mid # concat (replicate 30 [Fire 3 mid, Fire 7 mid]))) = 0 \<and>
   \<not> isRunning (run init (Start mid # Resume mid # concat (replicate 30 [Fire 3 mid, Fire 7 mid]))) \<and>
   feedback (run init (Start mid # Resume mid # concat (replicate 30 [Fire 3 mid, Fire 7 mid]))) =
     [Notification ''success'', Notification ''success''] \<and>
   map kind (timers (run init (Start mid # Resume mid # concat (replicate 30 [Fire 3 mid, Fire 7 mid])))) =
     [ExpireT 0, SpawnLoopT, TickT, HintT, ExpireT 1] \<and>
   timeLeft (step (run init (Start mid # Resume mid # concat (replicate 30 [Fire 3 mid, Fire 7 mid])))
     (Fire 3 mid)) = - 1 \<and>
   feedback (step (run init (Start mid # Resume mid # concat (replicate 30 [Fire 3 mid, Fire 7 mid])))
     (Fire 3 mid)) =
     [Notification ''success'', Notification ''success'', Notification ''success'']"
proof -
  have R: "run init (Start mid # Resume mid # concat (replicate 30 [Fire 3 mid, Fire 7 mid])) =
    \<lparr>score = 0, timeLeft = 0, spawnTimeout = None, timerInterval = None, orbId = 2,
      isRunning = False, hintTimeoutId = Some 4, overlayHidden = False, hintVisible = True,
      orbs =
        [\<lparr>oid = 1, otype = ''common'', captured = False, isConnected = True, collected = False\<rparr>,
         \<lparr>oid = 2, otype = ''common'', captured = False, isConnected = True, collected = False\<rparr>],
      timers =
        [\<lparr>handle = 1, kind = ExpireT 0, delay = 2500\<rparr>,
         \<lparr>handle = 2, kind = SpawnLoopT, delay = 1200\<rparr>,
         \<lparr>handle = 3, kind = TickT, delay = 1000\<rparr>,
         \<lparr>handle = 4, kind = HintT, delay = 2500\<rparr>,
         \<lparr>handle = 5, kind = ExpireT 1, delay = 2500\<rparr>],
      nextHandle = 8, feedback = [Notification ''success'', Notification ''success'']\<rparr>"
    by code_simp
  show ?thesis
    unfolding R
    by (simp add: fire_def tick_def finish_def clearTimer_def haptics_def Let_def)
qed

text \<open>
  Once \<open>isRunning\<close> is false no event but \<open>start\<close> creates an orb, whatever timers
  are pending: \<open>spawnLoop\<close> returns at its guard, and \<open>resume\<close> at its own.
\<close>

lemma spawnLoop_idle: "\<not> isRunning s \<Longrightarrow> spawnLoop s d = s"
  by (simp add: spawnLoop_def)

lemma idle_orbs_step:
  assumes "\<not> isRunning s" "\<not> isStart e"
  shows "\<not> isRunning (step s e) \<and> length (orbs (step s e)) = length (orbs s) \<and>
    orbId (step s e) = orbId s"
proof (cases e)
  case (Fire h d)
  show ?thesis
  proof (cases "find (\<lambda>t. handle t = h) (timers s)")
    case None
    then show ?thesis using assms Fire by (simp add: fire_def)
  next
    case (Some t)
    from Some assms(1) show ?thesis
      unfolding Fire
      by (cases "kind t")
        (auto simp: fire_def spawnLoop_idle tick_def finish_def removeOrb_def detach_def
          clearTimer_def haptics_def orbAt_def Let_def split: option.splits)
  qed
qed (use assms in \<open>auto simp: isStart_def engine_defs Let_def split: option.splits\<close>)

lemma idle_orbs_run:
  "\<not> isRunning s \<Longrightarrow> \<forall>e\<in>set es. \<not> isStart e \<Longrightarrow>
    \<not> isRunning (run s es) \<and> length (orbs (run s es)) = length (orbs s) \<and>
    orbId (run s es) = orbId s"
  unfolding run_def
proof (induction es arbitrary: s)
  case Nil
  then show ?case by simp
next
  case (Cons e es)
  then have "\<not> isRunning (step s e) \<and> length (orbs (step s e)) = length (orbs s) \<and>
      orbId (step s e) = orbId s"
    by (simp add: idle_orbs_step)
  then show ?case using Cons.IH [of "step s e"] Cons.prems by simp
qed

text \<open>
  C7, amended. A tick lowers \<open>timeLeft\<close> by exactly 1, and changes nothing else while
  \<open>timeLeft\<close> stays above 0. When it brings \<open>timeLeft\<close> to 0 or below, \<open>finish\<close> runs:
  \<open>isRunning\<close> is cleared, the two timers held in \<open>spawnTimeout\<close> and \<open>timerInterval\<close>
  are cancelled and the fields cleared, one success notification is requested, and under
  any events up to the next \<open>start\<close> the session stays not running and no orb is
  created. When, besides, the pending spawn and tick timers are the ones held in the two
  fields (no second interval was armed by a \<open>resume\<close> without \<open>pause\<close>), no spawn or
  tick timer is pending from then on, and \<open>timeLeft\<close> and the feedback sent stay as they
  are up to the next \<open>start\<close>: no tick fires and \<open>finish\<close> does not run again.
\<close>

theorem tick_finishes_once:
  assumes "find (\<lambda>t. handle t = h) (timers s) = Some t" and "kind t = TickT"
  shows "timeLeft (tick s) = timeLeft s - 1 \<and>
    fire s h d = tick s \<and>
    (1 < timeLeft s \<longrightarrow> tick s = s\<lparr>timeLeft := timeLeft s - 1\<rparr>) \<and>
    (timeLeft s \<le> 1 \<longrightarrow>
       \<not> isRunning (tick s) \<and> spawnTimeout (tick s) = None \<and> timerInterval (tick s) = None \<and>
       timers (tick s) =
         filter (\<lambda>t. Some (handle t) \<noteq> spawnTimeout s \<and> Some (handle t) \<noteq> timerInterval s)
           (timers s) \<and>
       feedback (tick s) = feedback s @ [Notification ''success''] \<and>
       ((\<forall>e\<in>set es. \<not> isStart e) \<longrightarrow>
          \<not> isRunning (run (tick s) es) \<and>
          length (orbs (run (tick s) es)) = length (orbs s) \<and>
          orbId (run (tick s) es) = orbId s) \<and>
       (tracked s \<longrightarrow>
          quiet (tick s) \<and>
          ((\<forall>e\<in>set es. \<not> isStart e) \<longrightarrow>
             quiet (run (tick s) es) \<and>
             timeLeft (run (tick s) es) = timeLeft s - 1 \<and>
             feedback (run (tick s) es) = feedback s @ [Notification ''success''])))"
proof -
  have f: "fire s h d = tick s"
    using assms by (simp add: fire_def)
  have noorb: "\<not> isRunning (run (tick s) es) \<and>
      length (orbs (run (tick s) es)) = length (orbs s) \<and> orbId (run (tick s) es) = orbId s"
    if "timeLeft s \<le> 1" "\<forall>e\<in>set es. \<not> isStart e"
    using idle_orbs_run [of "tick s" es] tick_finish(1,5) [OF that(1)] tick_orbId [of s] that(2)
    by simp
  have once: "quiet (run (tick s) es) \<and> timeLeft (run (tick s) es) = timeLeft s - 1 \<and>
      feedback (run (tick s) es) = feedback s @ [Notification ''success'']"
    if "timeLeft s \<le> 1" "tracked s" "\<forall>e\<in>set es. \<not> isStart e"
    using finished_run [of "tick s" es] tick_finish [OF that(1)] tick_timeLeft [of s] that(2,3)
    by simp
  show ?thesis
    using f tick_timeLeft [of s] tick_continue [of s] tick_finish [of s] tick_timers [of s]
      noorb once
    by blast
qed

theorem tick_finishes_once_witness:
  "find (\<lambda>t. handle t = 3) (timers (run init (Start mid # replicate 59 (Fire 3 mid)))) =
     Some \<lparr>handle = 3, kind = TickT, delay = 1000\<rparr> \<and>
   timeLeft (run init (Start mid # replicate 59 (Fire 3 mid))) = 1 \<and>
   tracked (run init (Start mid # replicate 59 (Fire 3 mid))) \<and>
   list_all (\<lambda>e. \<not> isStart e) [Fire 3 mid, Resume mid, PointerDown 0, Fire 1 mid] \<and>
   \<not> isRunning (fire (run init (Start mid # replicate 59 (Fire 3 mid))) 3 mid) \<and>
   timeLeft (run (tick (run init (Start mid # replicate 59 (Fire 3 mid))))
     [Fire 3 mid, Resume mid, PointerDown 0, Fire 1 mid]) = 0 \<and>
   feedback (run (tick (run init (Start mid # replicate 59 (Fire 3 mid))))
     [Fire 3 mid, Resume mid, PointerDown 0, Fire 1 mid]) =
     [Notification ''success'', Notification ''success''] \<and>
   find (\<lambda>t. handle t = 7)
     (timers (run init (Start mid # Resume mid # replicate 59 (Fire 7 mid)))) =
     Some \<lparr>handle = 7, kind = TickT, delay = 1000\<rparr> \<and>
   timeLeft (run init (Start mid # Resume mid # replicate 59 (Fire 7 mid))) = 1 \<and>
   list_all (\<lambda>e. \<not> isStart e) [Fire 2 mid, Fire 3 mid, Resume mid] \<and>
   length (orbs (run (tick (run init (Start mid # Resume mid # replicate 59 (Fire 7 mid))))
     [Fire 2 mid, Fire 3 mid, Resume mid])) = 2"
proof -
  have R: "run init (Start mid # replicate 59 (Fire 3 mid)) =
    \<lparr>score = 0, timeLeft = 1, spawnTimeout = Some 2, timerInterval = Some 3, orbId = 1,
      isRunning = True, hintTimeoutId = Some 4, overlayHidden = True, hintVisible = True,
      orbs =
        [\<lparr>oid = 1, otype = ''common'', captured = False, isConnected = True, collected = False\<rparr>],
      timers =
        [\<lparr>handle = 1, kind = ExpireT 0, delay = 2500\<rparr>,
         \<lparr>handle = 2, kind = SpawnLoopT, delay = 1200\<rparr>,
         \<lparr>handle = 3, kind = TickT, delay = 1000\<rparr>,
         \<lparr>handle = 4, kind = HintT, delay = 2500\<rparr>],
      nextHandle = 5, feedback = [Notification ''success'']\<rparr>"
    by code_simp
  have L: "run init (Start mid # Resume mid # replicate 59 (Fire 7 mid)) =
    \<lparr>score = 0, timeLeft = 1, spawnTimeout = Some 6, timerInterval = Some 7, orbId = 2,
      isRunning = True, hintTimeoutId = Some 4, overlayHidden = True, hintVisible = True,
      orbs =
        [\<lparr>oid = 1, otype = ''common'', captured = False, isConnected = True, collected = False\<rparr>,
         \<lparr>oid = 2, otype = ''common'', captured = False, isConnected = True, collected = False\<rparr>],
      timers =
        [\<lparr>handle = 1, kind = ExpireT 0, delay = 2500\<rparr>,
         \<lparr>handle = 2, kind = SpawnLoopT, delay = 1200\<rparr>,
         \<lparr>handle = 3, kind = TickT, delay = 1000\<rparr>,
         \<lparr>handle = 4, kind = HintT, delay = 2500\<rparr>,
         \<lparr>handle = 5, kind = ExpireT 1, delay = 2500\<rparr>,
         \<lparr>handle = 6, kind = SpawnLoopT, delay = 1200\<rparr>,
         \<lparr>handle = 7, kind = TickT, delay = 1000\<rparr>],
      nextHandle = 8, feedback = [Notification ''success'']\<rparr>"
    by code_simp
  have a: "tracked (run init (Start mid # replicate 59 (Fire 3 mid)))"
    unfolding R by (simp add: tracked_def)
  have b: "find (\<lambda>t. handle t = 3) (timers (run init (Start mid # replicate 59 (Fire 3 mid)))) =
     Some \<lparr>handle = 3, kind = TickT, delay = 1000\<rparr>"
    unfolding R by simp
  have c: "timeLeft (run init (Start mid # replicate 59 (Fire 3 mid))) = 1"
    "feedback (run init (Start mid # replicate 59 (Fire 3 mid))) = [Notification ''success'']"
    unfolding R by simp_all
  have e: "\<forall>e\<in>set [Fire 3 mid, Resume mid, PointerDown 0, Fire 1 mid]. \<not> isStart e"
    by (simp add: isStart_def)
  have b': "find (\<lambda>t. handle t = 7)
      (timers (run init (Start mid # Resume mid # replicate 59 (Fire 7 mid)))) =
     Some \<lparr>handle = 7, kind = TickT, delay = 1000\<rparr>"
    unfolding L by simp
  have c': "timeLeft (run init (Start mid # Resume mid # replicate 59 (Fire 7 mid))) = 1"
    "length (orbs (run init (Start mid # Resume mid # replicate 59 (Fire 7 mid)))) = 2"
    unfolding L by simp_all
  have e': "\<forall>e\<in>set [Fire 2 mid, Fire 3 mid, Resume mid]. \<not> isStart e"
    by (simp add: isStart_def)
  show ?thesis
    using tick_finishes_once [OF b, of mid "[Fire 3 mid, Resume mid, PointerDown 0, Fire 1 mid]"]
      tick_finishes_once [OF b', of mid "[Fire 2 mid, Fire 3 mid, Resume mid]"]
      a b c e b' c' e'
    by (simp add: list_all_iff)
qed

subsection \<open>Spawn delay\<close>

lemma foldl_keep_last:
  "foldl (\<lambda>acc c. if P c then c else acc) a xs =
    (case filter P xs of [] \<Rightarrow> a | c # cs \<Rightarrow> last (c # cs))"
proof (induction xs rule: rev_induct)
  case Nil
  show ?case by simp
next
  case (snoc x xs)
  then show ?case by (simp split: list.splits)
qed

lemma activeConfig_last:
  "activeConfig sc =
    (case filter (\<lambda>c. threshold c \<le> sc) SPAWN_CONFIG of
       [] \<Rightarrow> SPAWN_CONFIG ! 0
     | c # cs \<Rightarrow> last (c # cs))"
  unfolding activeConfig_def by (rule foldl_keep_last)

lemma activeConfig_interval:
  "interval (activeConfig sc) =
    (if 55 \<le> sc then 600 else if 40 \<le> sc then 750 else if 20 \<le> sc then 900 else 1200)"
  by (simp add: activeConfig_def SPAWN_CONFIG_def)

lemma activeConfig_mono: "sc \<le> sc' \<Longrightarrow> interval (activeConfig sc') \<le> interval (activeConfig sc)"
  by (simp add: activeConfig_interval)

lemma spawnDelay_bounds:
  assumes "0 \<le> rj" "rj < 1"
  shows "320 \<le> spawnDelay sc rj"
    and "real_of_int (interval (activeConfig sc)) - 110 \<le> spawnDelay sc rj"
    and "spawnDelay sc rj < real_of_int (interval (activeConfig sc)) + 110"
  using assms by (auto simp: spawnDelay_def Let_def activeConfig_interval)

lemma spawnLoop_running:
  assumes "isRunning s"
  shows "length (orbs (spawnLoop s d)) = Suc (length (orbs s))"
    and "last (timers (spawnLoop s d)) =
      \<lparr>handle = Suc (nextHandle s), kind = SpawnLoopT, delay = spawnDelay (score s) (jitter d)\<rparr>"
    and "spawnTimeout (spawnLoop s d) = Some (Suc (nextHandle s))"
  using assms by (simp_all add: spawnLoop_def spawnOrb_def setTimer_def Let_def split_def)

text \<open>
  C6. The delay of the next spawn is \<open>max 320 (interval + jitter)\<close>, where the jitter is
  \<open>r * 220 - 110\<close> for the value \<open>r\<close> drawn from \<open>Math.random()\<close> (so within 110 either
  side of 0 for \<open>r\<close> in \<open>[0, 1)\<close>), and the interval is that of the last entry of
  \<open>SPAWN_CONFIG\<close>, whose thresholds ascend, with threshold at most the score (the first
  entry if there is none). The interval chosen never grows with the score. Each run of
  the spawn loop in a running session creates one orb and arms one timer with that delay,
  computed from the current score. How \<open>r\<close> is distributed is outside the model.
\<close>

theorem spawn_delay:
  "spawnDelay sc rj = max 320 (real_of_int (interval (activeConfig sc)) + (rj * 220 - 110)) \<and>
   activeConfig sc =
     (case filter (\<lambda>c. threshold c \<le> sc) SPAWN_CONFIG of
        [] \<Rightarrow> SPAWN_CONFIG ! 0
      | c # cs \<Rightarrow> last (c # cs)) \<and>
   sorted (map threshold SPAWN_CONFIG) \<and>
   (sc \<le> sc' \<longrightarrow> interval (activeConfig sc') \<le> interval (activeConfig sc)) \<and>
   (0 \<le> rj \<longrightarrow> rj < 1 \<longrightarrow>
      320 \<le> spawnDelay sc rj \<and>
      real_of_int (interval (activeConfig sc)) - 110 \<le> spawnDelay sc rj \<and>
      spawnDelay sc rj < real_of_int (interval (activeConfig sc)) + 110) \<and>
   (isRunning s \<longrightarrow>
      length (orbs (spawnLoop s d)) = Suc (length (orbs s)) \<and>
      last (timers (spawnLoop s d)) =
        \<lparr>handle = Suc (nextHandle s), kind = SpawnLoopT,
          delay = spawnDelay (score s) (jitter d)\<rparr> \<and>
      spawnTimeout (spawnLoop s d) = Some (Suc (nextHandle s)))"
proof -
  have "spawnDelay sc rj = max 320 (real_of_int (interval (activeConfig sc)) + (rj * 220 - 110))"
    by (simp add: spawnDelay_def Let_def)
  moreover have "sorted (map threshold SPAWN_CONFIG)"
    by (simp add: SPAWN_CONFIG_def)
  ultimately show ?thesis
    using activeConfig_last [of sc] activeConfig_mono [of sc sc'] spawnDelay_bounds [of rj sc]
      spawnLoop_running [of s d]
    by blast
qed

theorem spawn_delay_witness:
  "(19::int) \<le> 20 \<and> interval (activeConfig 20) \<le> interval (activeConfig 19) \<and>
   (0::real) \<le> 1 / 4 \<and> (1 / 4 :: real) < 1 \<and>
   spawnDelay 20 (1 / 4) = 845 \<and> spawnDelay 20 (1 / 4) < 900 + 110 \<and>
   isRunning (run init [Start mid]) \<and>
   delay (last (timers (spawnLoop (run init [Start mid]) mid))) = 1200"
proof -
  have a: "isRunning (run init [Start mid])" "score (run init [Start mid]) = 0"
    by (simp_all add: engine_defs const_defs Let_def split_def)
  have b: "interval (activeConfig 20) = 900" "interval (activeConfig 0) = 1200"
    by (simp_all add: activeConfig_interval)
  have le: "(19::int) \<le> 20" and r: "(0::real) \<le> 1 / 4" "(1 / 4 :: real) < 1"
    by simp_all
  have c1: "interval (activeConfig 20) \<le> interval (activeConfig 19)"
    using spawn_delay [of 19 "1 / 4" 20 init mid] le by blast
  have "spawnDelay 20 (1 / 4) =
      max 320 (real_of_int (interval (activeConfig 20)) + (1 / 4 * 220 - 110))"
    using spawn_delay [of 20 "1 / 4" 20 init mid] by blast
  then have c2: "spawnDelay 20 (1 / 4) = 845"
    by (simp add: b)
  have "spawnDelay 20 (1 / 4) < real_of_int (interval (activeConfig 20)) + 110"
    using spawn_delay [of 20 "1 / 4" 20 init mid] r by blast
  then have c3: "spawnDelay 20 (1 / 4) < 900 + 110"
    by (simp add: b)
  have "last (timers (spawnLoop (run init [Start mid]) mid)) =
      \<lparr>handle = Suc (nextHandle (run init [Start mid])), kind = SpawnLoopT,
        delay = spawnDelay (score (run init [Start mid])) (jitter mid)\<rparr>"
    using spawn_delay [of 0 "1 / 2" 0 "run init [Start mid]" mid] a(1) by blast
  moreover have "spawnDelay 0 (1 / 2) =
      max 320 (real_of_int (interval (activeConfig 0)) + (1 / 2 * 220 - 110))"
    using spawn_delay [of 0 "1 / 2" 0 init mid] by blast
  moreover have "jitter mid = 1 / 2"
    by (simp add: mid_def)
  ultimately have c4: "delay (last (timers (spawnLoop (run init [Start mid]) mid))) = 1200"
    by (simp add: a(2) b)
  show ?thesis
    using a(1) le r c1 c2 c3 c4 by blast
qed

subsection \<open>Choice of the orb type\<close>

text \<open>\<open>binade\<close> is the binary exponent: for positive \<open>x\<close>, \<open>2^e \<le> x < 2^(e+1)\<close>.\<close>

lemma binade_bounds:
  assumes "0 < x"
  shows "pow2 (binade x) \<le> x \<and> x < pow2 (binade x + 1)"
proof (cases "1 \<le> x")
  case True
  then have m: "0 < \<lfloor>x\<rfloor>" by simp
  from bitlen_bounds [OF m]
  have lo: "2 ^ nat (bitlen \<lfloor>x\<rfloor> - 1) \<le> \<lfloor>x\<rfloor>" and hi: "\<lfloor>x\<rfloor> < 2 ^ nat (bitlen \<lfloor>x\<rfloor>)"
    by simp_all
  have b: "1 \<le> bitlen \<lfloor>x\<rfloor>"
    using m by (simp add: bitlen_alt_def)
  have "real_of_int (2 ^ nat (bitlen \<lfloor>x\<rfloor> - 1)) \<le> real_of_int \<lfloor>x\<rfloor>"
    using lo by (rule of_int_le_iff [THEN iffD2])
  then have 1: "2 ^ nat (bitlen \<lfloor>x\<rfloor> - 1) \<le> x"
    by (simp add: le_floor_iff)
  have "\<lfloor>x\<rfloor> + 1 \<le> 2 ^ nat (bitlen \<lfloor>x\<rfloor>)"
    using hi by simp
  then have "real_of_int (\<lfloor>x\<rfloor> + 1) \<le> real_of_int (2 ^ nat (bitlen \<lfloor>x\<rfloor>))"
    by (rule of_int_le_iff [THEN iffD2])
  then have up: "real_of_int \<lfloor>x\<rfloor> + 1 \<le> 2 ^ nat (bitlen \<lfloor>x\<rfloor>)"
    by simp
  have "x < real_of_int \<lfloor>x\<rfloor> + 1"
    by linarith
  with up have 2: "x < 2 ^ nat (bitlen \<lfloor>x\<rfloor>)"
    by linarith
  show ?thesis
    using True b 1 2 by (simp add: binade_def pow2_def)
next
  case False
  define n where "n = \<lceil>1 / x\<rceil> - 1"
  define k where "k = bitlen n"
  from False assms have inv: "1 < 1 / x" by simp
  then have "1 < \<lceil>1 / x\<rceil>" by (simp add: less_ceiling_iff)
  then have n: "0 < n" by (simp add: n_def)
  have nlt: "real_of_int n < 1 / x"
    unfolding n_def by linarith
  have nge: "1 / x \<le> real_of_int n + 1"
    unfolding n_def by (simp add: le_of_int_ceiling)
  from bitlen_bounds [OF n]
  have lo: "2 ^ nat (k - 1) \<le> n" and hi: "n < 2 ^ nat k"
    by (simp_all add: k_def)
  have k: "1 \<le> k"
    using n by (simp add: k_def bitlen_alt_def)
  have "n + 1 \<le> 2 ^ nat k" using hi by simp
  then have "real_of_int (n + 1) \<le> real_of_int (2 ^ nat k)"
    by (rule of_int_le_iff [THEN iffD2])
  then have "real_of_int n + 1 \<le> 2 ^ nat k"
    by simp
  with nge have "1 / x \<le> 2 ^ nat k" by linarith
  then have 1: "1 / 2 ^ nat k \<le> x"
    using assms by (simp add: field_simps)
  have "(2::real) ^ nat (k - 1) \<le> real_of_int n"
    using lo by simp
  with nlt have "2 ^ nat (k - 1) < 1 / x" by linarith
  then have 2: "x < 1 / 2 ^ nat (k - 1)"
    using assms by (simp add: field_simps)
  have e: "binade x = - k"
    using False by (simp add: binade_def k_def n_def)
  have "nat (- (1 - k)) = nat (k - 1)" by simp
  then show ?thesis
    using k 1 2 unfolding e by (auto simp: pow2_def)
qed

text \<open>The running sums of the loop over the catalog of the source.\<close>

lemma sum_common: "dadd 0 (roundDouble (7 / 10)) = 6305039478318694 / 2 ^ 53"
  by code_simp

lemma sum_rare: "dadd (6305039478318694 / 2 ^ 53) (roundDouble (2 / 10)) = 8106479329266892 / 2 ^ 53"
  by code_simp

lemma sum_bonus: "dadd (8106479329266892 / 2 ^ 53) (roundDouble (1 / 10)) = 9007199254740991 / 2 ^ 53"
  by code_simp

lemma pickLoop_Some:
  "i < length ts \<Longrightarrow> \<forall>j<i. foldl dadd c (map weight (take (Suc j) ts)) < rl \<Longrightarrow>
    rl \<le> foldl dadd c (map weight (take (Suc i) ts)) \<Longrightarrow> pickLoop rl c ts = Some (ts ! i)"
proof (induction ts arbitrary: c i)
  case Nil
  then show ?case by simp
next
  case (Cons t ts)
  show ?case
  proof (cases i)
    case 0
    with Cons.prems show ?thesis by simp
  next
    case (Suc k)
    from Cons.prems(2) Suc have first: "dadd c (weight t) < rl"
      by (auto dest: spec [of _ 0])
    have rest: "\<forall>j<k. foldl dadd (dadd c (weight t)) (map weight (take (Suc j) ts)) < rl"
    proof (intro allI impI)
      fix j assume "j < k"
      then have "Suc j < i" using Suc by simp
      with Cons.prems(2) have "foldl dadd c (map weight (take (Suc (Suc j)) (t # ts))) < rl"
        by blast
      then show "foldl dadd (dadd c (weight t)) (map weight (take (Suc j) ts)) < rl"
        by simp
    qed
    have hit: "rl \<le> foldl dadd (dadd c (weight t)) (map weight (take (Suc k) ts))"
      using Cons.prems(3) Suc by simp
    have k: "k < length ts" using Cons.prems(1) Suc by simp
    have "pickLoop rl (dadd c (weight t)) ts = Some (ts ! k)"
      using k rest hit by (rule Cons.IH)
    with first Suc show ?thesis by simp
  qed
qed

lemma pickLoop_None:
  "\<forall>i<length ts. foldl dadd c (map weight (take (Suc i) ts)) < rl \<Longrightarrow> pickLoop rl c ts = None"
proof (induction ts arbitrary: c)
  case Nil
  show ?case by simp
next
  case (Cons t ts)
  from Cons.prems have first: "dadd c (weight t) < rl"
    by (auto dest: spec [of _ 0])
  have "\<forall>i<length ts. foldl dadd (dadd c (weight t)) (map weight (take (Suc i) ts)) < rl"
  proof (intro allI impI)
    fix i assume "i < length ts"
    then have "Suc i < length (t # ts)" by simp
    with Cons.prems have "foldl dadd c (map weight (take (Suc (Suc i)) (t # ts))) < rl"
      by blast
    then show "foldl dadd (dadd c (weight t)) (map weight (take (Suc i) ts)) < rl"
      by simp
  qed
  then have "pickLoop rl (dadd c (weight t)) ts = None" by (rule Cons.IH)
  with first show ?case by simp
qed

lemma cumulativeWeight_values:
  "cumulativeWeight ORB_TYPES 0 = 6305039478318694 / 2 ^ 53"
  "cumulativeWeight ORB_TYPES 1 = 8106479329266892 / 2 ^ 53"
  "cumulativeWeight ORB_TYPES 2 = 9007199254740991 / 2 ^ 53"
  unfolding cumulativeWeight_def ORB_TYPES_def
  by (simp_all only: take_Suc_Cons take_0 list.map foldl_Cons foldl_Nil orb_type.simps
      One_nat_def numeral_2_eq_2 sum_common sum_rare sum_bonus)

lemma pickOrbType_name:
  "name (pickOrbType rl) =
    (if rl \<le> 6305039478318694 / 2 ^ 53 then ''common''
     else if rl \<le> 8106479329266892 / 2 ^ 53 then ''rare''
     else if rl \<le> 9007199254740991 / 2 ^ 53 then ''bonus'' else ''common'')"
proof -
  have "name (pickOrbType rl) =
    (if rl \<le> dadd 0 (roundDouble (7 / 10)) then ''common''
     else if rl \<le> dadd (dadd 0 (roundDouble (7 / 10))) (roundDouble (2 / 10)) then ''rare''
     else if rl \<le> dadd (dadd (dadd 0 (roundDouble (7 / 10))) (roundDouble (2 / 10)))
         (roundDouble (1 / 10)) then ''bonus''
     else ''common'')"
    by (simp add: pickOrbType_def ORB_TYPES_def)
  then show ?thesis
    by (simp only: sum_common sum_rare sum_bonus)
qed

text \<open>
  C8. \<open>pickOrbType\<close> returns the first entry of the catalog, in declared order, whose
  cumulative weight (the running sum the loop computes) is at least the roll; when the
  roll is above every cumulative weight it returns the first entry of the catalog. The
  running sums of the catalog are the doubles 0.7, 0.8999999999999999 and
  0.9999999999999999, the last being \<open>1 - 2^-53\<close>: a roll up to the first gives
  \<open>common\<close>, up to the second \<open>rare\<close>, up to the third \<open>bonus\<close>, and a roll above it,
  such as 1, falls back to \<open>common\<close>.
\<close>

theorem pickOrbType_scan:
  "(i < length ORB_TYPES \<longrightarrow> (\<forall>j<i. cumulativeWeight ORB_TYPES j < rl) \<longrightarrow>
      rl \<le> cumulativeWeight ORB_TYPES i \<longrightarrow> pickOrbType rl = ORB_TYPES ! i) \<and>
   ((\<forall>i<length ORB_TYPES. cumulativeWeight ORB_TYPES i < rl) \<longrightarrow>
      pickOrbType rl = ORB_TYPES ! 0) \<and>
   map (cumulativeWeight ORB_TYPES) [0, 1, 2] =
     [6305039478318694 / 2 ^ 53, 8106479329266892 / 2 ^ 53, 9007199254740991 / 2 ^ 53] \<and>
   name (pickOrbType rl) =
     (if rl \<le> 6305039478318694 / 2 ^ 53 then ''common''
      else if rl \<le> 8106479329266892 / 2 ^ 53 then ''rare''
      else if rl \<le> 9007199254740991 / 2 ^ 53 then ''bonus'' else ''common'')"
proof -
  have "pickOrbType rl = ORB_TYPES ! i"
    if "i < length ORB_TYPES" "\<forall>j<i. cumulativeWeight ORB_TYPES j < rl"
      "rl \<le> cumulativeWeight ORB_TYPES i"
    using pickLoop_Some [of i ORB_TYPES 0 rl] that
    by (simp add: pickOrbType_def cumulativeWeight_def)
  moreover have "pickOrbType rl = ORB_TYPES ! 0"
    if "\<forall>i<length ORB_TYPES. cumulativeWeight ORB_TYPES i < rl"
    using pickLoop_None [of ORB_TYPES 0 rl] that
    by (simp add: pickOrbType_def cumulativeWeight_def)
  moreover have "map (cumulativeWeight ORB_TYPES) [0, 1, 2] =
      [6305039478318694 / 2 ^ 53, 8106479329266892 / 2 ^ 53, 9007199254740991 / 2 ^ 53]"
    using cumulativeWeight_values by simp
  ultimately show ?thesis
    using pickOrbType_name [of rl] by blast
qed

theorem pickOrbType_scan_witness:
  "(1::nat) < length ORB_TYPES \<and> cumulativeWeight ORB_TYPES 0 < 4 / 5 \<and>
   4 / 5 \<le> cumulativeWeight ORB_TYPES 1 \<and> pickOrbType (4 / 5) = ORB_TYPES ! 1 \<and>
   list_all (\<lambda>i. cumulativeWeight ORB_TYPES i < 1) [0..<length ORB_TYPES] \<and>
   pickOrbType 1 = ORB_TYPES ! 0 \<and> name (pickOrbType 1) = ''common''"
proof -
  have len: "length ORB_TYPES = 3"
    by (simp add: ORB_TYPES_def)
  have a: "(1::nat) < length ORB_TYPES" "cumulativeWeight ORB_TYPES 0 < 4 / 5"
    "4 / 5 \<le> cumulativeWeight ORB_TYPES 1"
    unfolding len cumulativeWeight_values by simp_all
  then have a': "\<forall>j<1. cumulativeWeight ORB_TYPES j < 4 / 5"
    by simp
  have "cumulativeWeight ORB_TYPES 0 < 1" "cumulativeWeight ORB_TYPES 1 < 1"
    "cumulativeWeight ORB_TYPES 2 < 1"
    unfolding cumulativeWeight_values by simp_all
  then have b: "\<forall>i<length ORB_TYPES. cumulativeWeight ORB_TYPES i < 1"
    unfolding len by (auto simp: less_Suc_eq numeral_3_eq_3 numeral_2_eq_2)
  then have b': "list_all (\<lambda>i. cumulativeWeight ORB_TYPES i < 1) [0..<length ORB_TYPES]"
    by (simp add: list_all_iff)
  have c: "name (ORB_TYPES ! 0) = ''common''"
    by (simp add: ORB_TYPES_def)
  show ?thesis
    using pickOrbType_scan [of 1 "4 / 5"] pickOrbType_scan [of 0 1] a a' b b' c by metis
qed

end
